theory Spec2Isabelle
  imports Main "HOL-Library.Multiset"
begin

section \<open>JavaScript values\<close>

text \<open>
  The library dispatches on the run-time shape of its arguments (\<^verbatim>\<open>instanceof Promise\<close>,
  \<^verbatim>\<open>Array.isArray\<close>, \<^verbatim>\<open>typeof\<close>), so the model keeps values dynamically typed.

  A number is \<^verbatim>\<open>NaN\<close>, an infinity, a zero, or a finite number other than zero; the
  flag is true for the negative one. A finite number is given the way the language
  definition of \<^verbatim>\<open>Number::toString\<close> takes it: by its decimal digits \<open>s\<close>, read as a
  natural number, and the exponent \<open>n\<close>, and it stands for the digits with the decimal
  point moved in front of them, times ten to the power \<open>n\<close>. So \<^verbatim>\<open>5\<close> is
  \<open>Decimal False 5 1\<close>, \<^verbatim>\<open>0.25\<close> is \<open>Decimal False 25 0\<close>, \<^verbatim>\<open>-1500\<close> is
  \<open>Decimal True 15 4\<close> and \<^verbatim>\<open>1e21\<close> is \<open>Decimal False 1 22\<close>.
\<close>

datatype number =
    NaN
  | Infinity bool
  | Zero bool
  | Decimal bool nat int

text \<open>
  \<open>prim\<close> holds the values whose text inside a template literal is fixed by the
  language.
\<close>

datatype prim =
    JUndefined
  | JNull
  | JBoolean bool
  | JNumber number
  | JBigInt int
  | JString string

text \<open>
  An object is its class name and its own properties, in insertion order. A promise is
  one of its three states. A function is a key into a table of caller-supplied
  functions (see \<open>env\<close> below).
\<close>

datatype jsval =
    Prim prim
  | JSymbol string
  | JObject string "(string \<times> jsval) list"
  | JArray "jsval list"
  | JFulfilled jsval
  | JRejected jsval
  | JUnsettled
  | JFunction nat

fun typeof :: "jsval \<Rightarrow> string" where
  "typeof (Prim JUndefined) = ''undefined''"
| "typeof (Prim JNull) = ''object''"
| "typeof (Prim (JBoolean b)) = ''boolean''"
| "typeof (Prim (JNumber x)) = ''number''"
| "typeof (Prim (JBigInt n)) = ''bigint''"
| "typeof (Prim (JString s)) = ''string''"
| "typeof (JSymbol s) = ''symbol''"
| "typeof (JObject c fs) = ''object''"
| "typeof (JArray xs) = ''object''"
| "typeof (JFulfilled x) = ''object''"
| "typeof (JRejected e) = ''object''"
| "typeof JUnsettled = ''object''"
| "typeof (JFunction f) = ''function''"

fun instanceof_Promise :: "jsval \<Rightarrow> bool" where
  "instanceof_Promise (JFulfilled x) = True"
| "instanceof_Promise (JRejected e) = True"
| "instanceof_Promise JUnsettled = True"
| "instanceof_Promise x = False"

fun isArray :: "jsval \<Rightarrow> bool" where
  "isArray (JArray xs) = True"
| "isArray x = False"

fun elements :: "jsval \<Rightarrow> jsval list" where
  "elements (JArray xs) = xs"
| "elements x = []"

fun the_prim :: "jsval \<Rightarrow> prim" where
  "the_prim (Prim p) = p"
| "the_prim x = JUndefined"

text \<open>The truth value of a value under \<^verbatim>\<open>!\<close> and \<^verbatim>\<open>if\<close>: \<^verbatim>\<open>NaN\<close> and both zeros are
  false, every other number is true.\<close>

fun number_truthy :: "number \<Rightarrow> bool" where
  "number_truthy NaN = False"
| "number_truthy (Zero neg) = False"
| "number_truthy (Infinity neg) = True"
| "number_truthy (Decimal neg s n) = (s \<noteq> 0)"

fun truthy :: "jsval \<Rightarrow> bool" where
  "truthy (Prim JUndefined) = False"
| "truthy (Prim JNull) = False"
| "truthy (Prim (JBoolean b)) = b"
| "truthy (Prim (JNumber x)) = number_truthy x"
| "truthy (Prim (JBigInt n)) = (n \<noteq> 0)"
| "truthy (Prim (JString s)) = (s \<noteq> [])"
| "truthy x = True"

subsection \<open>Text of a value inside a template literal\<close>

fun decimal :: "nat \<Rightarrow> string" where
  "decimal n =
     (if n < 10 then [''0123456789'' ! n]
      else decimal (n div 10) @ [''0123456789'' ! (n mod 10)])"

definition decimal_int :: "int \<Rightarrow> string" where
  "decimal_int i = (if i < 0 then ''-'' @ decimal (nat (- i)) else decimal (nat i))"

text \<open>
  \<^verbatim>\<open>Number::toString\<close> in radix 10. With \<open>k\<close> digits and exponent \<open>n\<close>: the digits
  followed by zeros when \<open>k \<le> n \<le> 21\<close>; the digits with a point after the first \<open>n\<close>
  when \<open>0 < n \<le> 21\<close>; \<^verbatim>\<open>0.\<close>, zeros and the digits when \<open>-6 < n \<le> 0\<close>; and otherwise the
  exponent form (\<^verbatim>\<open>1e+21\<close>, \<^verbatim>\<open>1.5e-7\<close>). The digits are taken without trailing zeros.
\<close>

definition significant :: "nat \<Rightarrow> string" where
  "significant s = rev (dropWhile (\<lambda>c. c = CHR ''0'') (rev (decimal s)))"

definition finite_text :: "string \<Rightarrow> int \<Rightarrow> string" where
  "finite_text ds n =
     (let k = int (length ds) in
      if k \<le> n \<and> n \<le> 21 then ds @ replicate (nat (n - k)) (CHR ''0'')
      else if 0 < n \<and> n \<le> 21 then take (nat n) ds @ ''.'' @ drop (nat n) ds
      else if - 6 < n \<and> n \<le> 0 then ''0.'' @ replicate (nat (- n)) (CHR ''0'') @ ds
      else take 1 ds @ (if k = 1 then [] else ''.'' @ drop 1 ds) @ ''e''
        @ (if n - 1 < 0 then ''-'' else ''+'') @ decimal (nat \<bar>n - 1\<bar>))"

fun number_text :: "number \<Rightarrow> string" where
  "number_text NaN = ''NaN''"
| "number_text (Infinity neg) = (if neg then ''-Infinity'' else ''Infinity'')"
| "number_text (Zero neg) = ''0''"
| "number_text (Decimal neg s n) =
     (if s = 0 then ''0''
      else (if neg then ''-'' else []) @ finite_text (significant s) n)"

fun template :: "prim \<Rightarrow> string" where
  "template JUndefined = ''undefined''"
| "template JNull = ''null''"
| "template (JBoolean b) = (if b then ''true'' else ''false'')"
| "template (JNumber x) = number_text x"
| "template (JBigInt n) = decimal_int n"
| "template (JString s) = s"

section \<open>Denial\<close>

text \<open>
  The source holds two versions of the library. They share the evaluators and the
  checkers word for word and differ in the \<^verbatim>\<open>Denial\<close> constructor, in the tag
  \<^verbatim>\<open>requirePermission\<close> gives to a wrapped error and in what \<^verbatim>\<open>require*\<close> return.
\<close>

datatype variant = First | Second

text \<open>
  \<^verbatim>\<open>super(value === undefined ? `Denial: ${cause}: ${value}` : `Denial: ${cause}`)\<close> in the
  first version, \<^verbatim>\<open>value !== undefined ? ...\<close> in the second.
\<close>

fun Denial_message :: "variant \<Rightarrow> string \<Rightarrow> prim \<Rightarrow> string" where
  "Denial_message First cause v =
     (if v = JUndefined then ''Denial: '' @ cause @ '': '' @ template v
      else ''Denial: '' @ cause)"
| "Denial_message Second cause v =
     (if v \<noteq> JUndefined then ''Denial: '' @ cause @ '': '' @ template v
      else ''Denial: '' @ cause)"

text \<open>
  \<^verbatim>\<open>new Denial(cause, value)\<close>: the message set by \<^verbatim>\<open>Error\<close>'s constructor, then the
  two fields. The value argument ranges over \<open>prim\<close>: the library passes strings,
  booleans, numbers, bigints and nothing at all.
\<close>

definition Denial :: "variant \<Rightarrow> string \<Rightarrow> prim \<Rightarrow> jsval" where
  "Denial v cause val =
     JObject ''Denial''
       [(''message'', Prim (JString (Denial_message v cause val))),
        (''cause'', Prim (JString cause)),
        (''value'', Prim val)]"

definition Error :: "string \<Rightarrow> jsval" where
  "Error msg = JObject ''Error'' [(''message'', Prim (JString msg))]"

text \<open>The error of reading a property of \<^verbatim>\<open>null\<close> or \<^verbatim>\<open>undefined\<close>, or of calling
  what is no function; its message depends on the engine and is left out.\<close>

definition TypeError :: jsval where
  "TypeError = JObject ''TypeError'' []"

section \<open>Asynchronous computations\<close>

text \<open>
  An \<^verbatim>\<open>async\<close> function returns, throws (its promise rejects), or never settles
  (\<open>Pending\<close>). \<open>Exhausted\<close> is the result of an evaluator that has used up its
  recursion bound: nothing is known about what the code does then.
\<close>

datatype 'a outcome = Returns 'a | Throws jsval | Pending | Exhausted

text \<open>
  Next to the outcome a computation records the calls it made to caller-supplied
  functions. Calls made one after the other are listed in that order. The evaluations
  of the elements of an array run concurrently: their records stand side by side in a
  \<open>Fanout\<close>, which orders the calls inside each element and says nothing about the
  order of calls of different elements.
\<close>

type_synonym call = "nat \<times> jsval list"

datatype event = Called nat "jsval list" | Fanout "event list list"

type_synonym 'a run = "'a outcome \<times> event list"

text \<open>The calls in a record, with their multiplicity and without their order.\<close>

primrec calls_of :: "event \<Rightarrow> call multiset" where
  "calls_of (Called f args) = {#(f, args)#}"
| "calls_of (Fanout ts) = sum_list (map sum_list (map (map calls_of) ts))"

definition calls :: "event list \<Rightarrow> call multiset" where
  "calls t = sum_list (map calls_of t)"

text \<open>
  What the library is run against. \<open>results\<close> says what the caller-supplied function
  with a given key does on given arguments: it returns, throws, or returns a promise
  that never settles (\<open>Pending\<close>); functions are deterministic, and their effect is
  visible as the recorded call. \<open>settles\<close> says in which order the evaluations of the
  elements of an array settle, for the evaluator and the arguments it was called with:
  that order depends on the moments at which promises settle, which no value shows. It
  lists positions in the array; elements it does not list settle after the listed ones,
  in the order of the array. Not every order can occur for given elements (an element
  that throws at once settles before one that waits for a promise); what holds for every
  environment holds for the orders that can occur.
\<close>

record env =
  results :: "nat \<Rightarrow> jsval list \<Rightarrow> jsval outcome"
  settles :: "string \<Rightarrow> jsval list \<Rightarrow> nat list"

definition returns :: "'a \<Rightarrow> 'a run" where
  "returns x = (Returns x, [])"

definition throws :: "jsval \<Rightarrow> 'a run" where
  "throws e = (Throws e, [])"

text \<open>Sequencing: what follows runs only when the first part returned.\<close>

fun andThen :: "'a run \<Rightarrow> ('a \<Rightarrow> 'b run) \<Rightarrow> 'b run" where
  "andThen (Returns x, cs) f = (case f x of (r, cs') \<Rightarrow> (r, cs @ cs'))"
| "andThen (Throws e, cs) f = (Throws e, cs)"
| "andThen (Pending, cs) f = (Pending, cs)"
| "andThen (Exhausted, cs) f = (Exhausted, cs)"

text \<open>\<^verbatim>\<open>await x\<close>: the value a promise is fulfilled with, the error it is rejected with,
  and \<open>x\<close> itself when \<open>x\<close> is no promise.\<close>

fun await :: "jsval \<Rightarrow> jsval run" where
  "await (JFulfilled x) = returns x"
| "await (JRejected e) = throws e"
| "await JUnsettled = (Pending, [])"
| "await x = returns x"

fun call :: "env \<Rightarrow> jsval \<Rightarrow> jsval list \<Rightarrow> jsval run" where
  "call F (JFunction f) args = (results F f args, [Called f args])"
| "call F x args = throws TypeError"

text \<open>
  \<^verbatim>\<open>Promise.all(xs.map(f))\<close>. Every element is started, whatever the others do, and the
  records of all of them are kept. \<^verbatim>\<open>Promise.all\<close> holds an array of values with one
  place for each element. As the elements settle, in the order \<open>order\<close>, an element
  that returns stores its result at its own position, and the first element that throws
  makes the whole throw its error. When every place is filled the whole returns the
  array of values. An element that never settles stores nothing. When an element is cut
  off by the recursion bound, so is the whole.
\<close>

fun positions :: "nat \<Rightarrow> 'a list \<Rightarrow> nat list" where
  "positions i [] = []"
| "positions i (x # xs) = i # positions (Suc i) xs"

definition fulfil :: "'a outcome list \<Rightarrow> nat \<Rightarrow> 'a option list \<Rightarrow> 'a option list" where
  "fulfil os i values =
     (if i < length os then
        (case os ! i of Returns x \<Rightarrow> values[i := Some x] | _ \<Rightarrow> values)
      else values)"

fun first_rejected :: "'a outcome list \<Rightarrow> nat list \<Rightarrow> jsval option" where
  "first_rejected os [] = None"
| "first_rejected os (i # order) =
     (if i < length os then
        (case os ! i of Throws e \<Rightarrow> Some e | _ \<Rightarrow> first_rejected os order)
      else first_rejected os order)"

fun exhausted :: "'a outcome \<Rightarrow> bool" where
  "exhausted Exhausted = True"
| "exhausted x = False"

text \<open>Records side by side; an element that called nothing leaves no mark.\<close>

definition fanout :: "event list list \<Rightarrow> event list" where
  "fanout ts =
     (case filter (\<lambda>t. t \<noteq> []) ts of
        [] \<Rightarrow> []
      | [t] \<Rightarrow> t
      | t # t' # ts' \<Rightarrow> [Fanout (t # t' # ts')])"

definition Promise_all :: "nat list \<Rightarrow> 'a run list \<Rightarrow> 'a list run" where
  "Promise_all order rs =
     (let os = map fst rs; turns = order @ positions 0 os
      in (if list_ex exhausted os then Exhausted
          else case first_rejected os turns of
            Some e \<Rightarrow> Throws e
          | None \<Rightarrow>
             (case those (fold (fulfil os) turns (replicate (length os) None)) of
                Some values \<Rightarrow> Returns values
              | None \<Rightarrow> Pending),
          fanout (map snd rs)))"

text \<open>
  Property read \<^verbatim>\<open>x.k\<close>. The library reads the properties \<^verbatim>\<open>value\<close> and \<^verbatim>\<open>error\<close> only;
  an object has them as own properties or not at all, every other value but \<^verbatim>\<open>null\<close> and
  \<^verbatim>\<open>undefined\<close> gives \<^verbatim>\<open>undefined\<close> for them.
\<close>

fun get :: "jsval \<Rightarrow> string \<Rightarrow> jsval run" where
  "get (Prim JUndefined) k = throws TypeError"
| "get (Prim JNull) k = throws TypeError"
| "get (JObject c fs) k = returns (case map_of fs k of Some x \<Rightarrow> x | None \<Rightarrow> Prim JUndefined)"
| "get x k = returns (Prim JUndefined)"

section \<open>Evaluations\<close>

text \<open>
  The three evaluators recurse on what a promise resolves to and on what a function
  returns, which need not end; the argument after the environment bounds the depth of
  that recursion, and an evaluator that reaches the bound is \<open>Exhausted\<close>.
\<close>

fun evaluatePermit :: "variant \<Rightarrow> env \<Rightarrow> nat \<Rightarrow> jsval \<Rightarrow> jsval \<Rightarrow> jsval list run" where
  "evaluatePermit v F 0 permit target = (Exhausted, [])"
| "evaluatePermit v F (Suc n) permit target =
     (if instanceof_Promise permit then
        andThen (await permit) (\<lambda>it. evaluatePermit v F n it target)
      else if isArray permit then
        andThen (Promise_all (settles F ''evaluatePermit'' [permit, target])
            (map (\<lambda>it. evaluatePermit v F n it target) (elements permit)))
          (\<lambda>it. returns (concat it))
      else if typeof permit = ''string'' then
        returns [JObject ''Object''
          [(''value'', permit), (''error'', Denial v ''Permit'' (the_prim permit))]]
      else if typeof permit = ''object'' then
        returns [permit]
      else if typeof permit = ''function'' then
        andThen (andThen (call F permit [target]) await) (\<lambda>it. evaluatePermit v F n it target)
      else throws (Error ''Invalid Permit Type''))"

fun evaluatePrivilege :: "variant \<Rightarrow> env \<Rightarrow> nat \<Rightarrow> jsval \<Rightarrow> jsval \<Rightarrow> jsval list run" where
  "evaluatePrivilege v F 0 privilege role = (Exhausted, [])"
| "evaluatePrivilege v F (Suc n) privilege role =
     (if instanceof_Promise privilege then
        andThen (await privilege) (\<lambda>it. evaluatePrivilege v F n it role)
      else if isArray privilege then
        andThen (Promise_all (settles F ''evaluatePrivilege'' [privilege, role])
            (map (\<lambda>it. evaluatePrivilege v F n it role) (elements privilege)))
          (\<lambda>it. returns (concat it))
      else if typeof privilege = ''boolean'' then
        returns [JObject ''Object''
          [(''value'', privilege), (''error'', Denial v ''Privilege'' (the_prim privilege))]]
      else if typeof privilege = ''object'' then
        returns [privilege]
      else if typeof privilege = ''function'' then
        andThen (andThen (call F privilege [role]) await) (\<lambda>it. evaluatePrivilege v F n it role)
      else throws (Error ''Invalid Privilege Type''))"

fun evaluatePermission ::
  "variant \<Rightarrow> env \<Rightarrow> nat \<Rightarrow> jsval \<Rightarrow> jsval \<Rightarrow> jsval \<Rightarrow> jsval list run" where
  "evaluatePermission v F 0 permission privilege target = (Exhausted, [])"
| "evaluatePermission v F (Suc n) permission privilege target =
     (if instanceof_Promise permission then
        andThen (await permission) (\<lambda>it. evaluatePermission v F n it privilege target)
      else if isArray permission then
        andThen (Promise_all (settles F ''evaluatePermission'' [permission, privilege, target])
            (map (\<lambda>it. evaluatePermission v F n it privilege target) (elements permission)))
          (\<lambda>it. returns (concat it))
      else if typeof permission = ''boolean'' then
        returns [JObject ''Object''
          [(''value'', permission), (''error'', Denial v ''Permission'' (the_prim permission))]]
      else if typeof permission = ''object'' then
        returns [permission]
      else if typeof permission = ''function'' then
        andThen (andThen (call F permission [privilege, target]) await)
          (\<lambda>it. evaluatePermission v F n it privilege target)
      else throws (Error ''Invalid Permission Type''))"

section \<open>Validators\<close>

text \<open>\<^verbatim>\<open>{value: true}\<close> and \<^verbatim>\<open>{value: false, error: e}\<close>.\<close>

definition approved :: jsval where
  "approved = JObject ''Object'' [(''value'', Prim (JBoolean True))]"

definition denied :: "jsval \<Rightarrow> jsval" where
  "denied e = JObject ''Object'' [(''value'', Prim (JBoolean False)), (''error'', e)]"

text \<open>
  \<^verbatim>\<open>for (const approval of approvals) if (!approval.value) return approval\<close>:
  the approval the loop returns, or \<open>None\<close> when it runs to its end.
\<close>

fun first_denied :: "jsval list \<Rightarrow> jsval option run" where
  "first_denied [] = returns None"
| "first_denied (approval # approvals) =
     andThen (get approval ''value'')
       (\<lambda>x. if \<not> truthy x then returns (Some approval) else first_denied approvals)"

text \<open>The loop of \<^verbatim>\<open>checkPermit\<close> over the roles.\<close>

fun checkPermit_roles :: "variant \<Rightarrow> env \<Rightarrow> nat \<Rightarrow> jsval \<Rightarrow> jsval list \<Rightarrow> jsval run" where
  "checkPermit_roles v F n privilege [] = returns approved"
| "checkPermit_roles v F n privilege (role # roles) =
     andThen (evaluatePrivilege v F n privilege role)
       (\<lambda>approvals.
          if length approvals = 0 then andThen (get role ''error'') (\<lambda>e. returns (denied e))
          else andThen (first_denied approvals)
            (\<lambda>d. case d of Some approval \<Rightarrow> returns approval
                  | None \<Rightarrow> checkPermit_roles v F n privilege roles))"

definition checkPermit :: "variant \<Rightarrow> env \<Rightarrow> nat \<Rightarrow> jsval \<Rightarrow> jsval \<Rightarrow> jsval \<Rightarrow> jsval run" where
  "checkPermit v F n permit privilege target =
     andThen (evaluatePermit v F n permit target) (checkPermit_roles v F n privilege)"

definition checkPermission ::
  "variant \<Rightarrow> env \<Rightarrow> nat \<Rightarrow> jsval \<Rightarrow> jsval \<Rightarrow> jsval \<Rightarrow> jsval run" where
  "checkPermission v F n permission privilege target =
     andThen (evaluatePermission v F n permission privilege target)
       (\<lambda>approvals.
          if length approvals = 0 then returns (denied (Denial v ''Approval'' JUndefined))
          else andThen (first_denied approvals)
            (\<lambda>d. case d of Some approval \<Rightarrow> returns approval | None \<Rightarrow> returns approved))"

subsection \<open>Bulk validators\<close>

text \<open>A check is the triple \<^verbatim>\<open>[permit, privilege, target]\<close>.\<close>

fun checkPermits :: "variant \<Rightarrow> env \<Rightarrow> nat \<Rightarrow> (jsval \<times> jsval \<times> jsval) list \<Rightarrow> jsval run" where
  "checkPermits v F n [] = returns approved"
| "checkPermits v F n ((permit, privilege, target) # permits) =
     andThen (checkPermit v F n permit privilege target)
       (\<lambda>approval. andThen (get approval ''value'')
          (\<lambda>x. if \<not> truthy x then returns approval else checkPermits v F n permits))"

section \<open>Require\<close>

text \<open>
  The \<^verbatim>\<open>switch (typeof approval.error)\<close> of \<^verbatim>\<open>requirePermit\<close> and
  \<^verbatim>\<open>requirePermission\<close>, with the tag the caller gives to the wrapped error.
\<close>

definition throw_error :: "variant \<Rightarrow> string \<Rightarrow> jsval \<Rightarrow> jsval run" where
  "throw_error v tag err =
     (if typeof err \<in> {''string'', ''boolean'', ''undefined'', ''bigint'', ''number''}
      then throws (Denial v tag (the_prim err))
      else throws err)"

text \<open>The first version returns nothing, the second \<^verbatim>\<open>target!\<close>.\<close>

fun require_result :: "variant \<Rightarrow> jsval \<Rightarrow> jsval" where
  "require_result First target = Prim JUndefined"
| "require_result Second target = target"

definition requirePermit ::
  "variant \<Rightarrow> env \<Rightarrow> nat \<Rightarrow> jsval \<Rightarrow> jsval \<Rightarrow> jsval \<Rightarrow> jsval run" where
  "requirePermit v F n permit privilege target =
     andThen (checkPermit v F n permit privilege target)
       (\<lambda>approval. andThen (get approval ''value'')
          (\<lambda>x. if \<not> truthy x
               then andThen (get approval ''error'') (throw_error v ''Permit'')
               else returns (require_result v target)))"

text \<open>The first version tags the wrapped error \<^verbatim>\<open>'Permit'\<close> here too, the second
  \<^verbatim>\<open>'Permission'\<close>.\<close>

fun requirePermission_tag :: "variant \<Rightarrow> string" where
  "requirePermission_tag First = ''Permit''"
| "requirePermission_tag Second = ''Permission''"

definition requirePermission ::
  "variant \<Rightarrow> env \<Rightarrow> nat \<Rightarrow> jsval \<Rightarrow> jsval \<Rightarrow> jsval \<Rightarrow> jsval run" where
  "requirePermission v F n permission privilege target =
     andThen (checkPermission v F n permission privilege target)
       (\<lambda>approval. andThen (get approval ''value'')
          (\<lambda>x. if \<not> truthy x
               then andThen (get approval ''error'') (throw_error v (requirePermission_tag v))
               else returns (require_result v target)))"

section \<open>Vocabulary of the properties\<close>

text \<open>
  An approval approves when the loop test \<^verbatim>\<open>!approval.value\<close> is false, and denies when
  it is true; reading the field must not throw in either case.
\<close>

definition approves :: "jsval \<Rightarrow> bool" where
  "approves approval =
     (case fst (get approval ''value'') of Returns x \<Rightarrow> truthy x | _ \<Rightarrow> False)"

definition denies :: "jsval \<Rightarrow> bool" where
  "denies approval =
     (case fst (get approval ''value'') of Returns x \<Rightarrow> \<not> truthy x | _ \<Rightarrow> False)"

text \<open>A role passes a privilege when the privilege evaluates to at least one approval
  and all of them approve.\<close>

definition passes :: "variant \<Rightarrow> env \<Rightarrow> nat \<Rightarrow> jsval \<Rightarrow> jsval \<Rightarrow> bool" where
  "passes v F n privilege role =
     (case fst (evaluatePrivilege v F n privilege role) of
        Returns approvals \<Rightarrow> approvals \<noteq> [] \<and> list_all approves approvals
      | _ \<Rightarrow> False)"

text \<open>The calls made while evaluating the privilege for each of the roles, in order.\<close>

definition privilege_calls :: "variant \<Rightarrow> env \<Rightarrow> nat \<Rightarrow> jsval \<Rightarrow> jsval list \<Rightarrow> event list" where
  "privilege_calls v F n privilege roles =
     concat (map (\<lambda>role. snd (evaluatePrivilege v F n privilege role)) roles)"

text \<open>A check passes when \<^verbatim>\<open>checkPermit\<close> returns an approval that approves.\<close>

definition check_passes :: "variant \<Rightarrow> env \<Rightarrow> nat \<Rightarrow> jsval \<times> jsval \<times> jsval \<Rightarrow> bool" where
  "check_passes v F n c =
     (case c of (permit, privilege, target) \<Rightarrow>
        (case fst (checkPermit v F n permit privilege target) of
           Returns approval \<Rightarrow> approves approval
         | _ \<Rightarrow> False))"

definition check_calls ::
  "variant \<Rightarrow> env \<Rightarrow> nat \<Rightarrow> (jsval \<times> jsval \<times> jsval) list \<Rightarrow> event list" where
  "check_calls v F n permits =
     concat (map (\<lambda>(permit, privilege, target). snd (checkPermit v F n permit privilege target))
       permits)"

text \<open>
  An environment for the examples. Function 0 is \<^verbatim>\<open>() => []\<close>, function 1 throws when
  it is called, function 3 returns function 4, which returns \<^verbatim>\<open>'a'\<close>, function 5
  returns \<^verbatim>\<open>'b'\<close>, and every other one returns a promise that never settles. Of the
  elements of an array the second settles first.
\<close>

definition example_funs :: env where
  "example_funs =
     \<lparr>results = (\<lambda>f args.
        if f = 0 then Returns (JArray [])
        else if f = 1 then Throws (Error ''called'')
        else if f = 3 then Returns (JFunction 4)
        else if f = 4 then Returns (Prim (JString ''a''))
        else if f = 5 then Returns (Prim (JString ''b''))
        else Pending),
      settles = (\<lambda>name args. [1, 0])\<rparr>"

section \<open>The text of numbers\<close>

lemma replicate_digits: "replicate (numeral k) c = [c] @ replicate (pred_numeral k) c"
  by (simp add: numeral_eq_Suc)

lemma number_text_examples:
  "number_text (Decimal False 5 1) = ''5''"
  "number_text (Decimal True 15 4) = ''-1500''"
  "number_text (Decimal False 25 0) = ''0.25''"
  "number_text (Decimal False 123456 3) = ''123.456''"
  "number_text (Decimal False 1 (- 5)) = ''0.000001''"
  "number_text (Decimal False 1 (- 6)) = ''1e-7''"
  "number_text (Decimal False 15 (- 6)) = ''1.5e-7''"
  "number_text (Decimal False 1 21) = ''100000000000000000000''"
  "number_text (Decimal False 1 22) = ''1e+21''"
  "number_text (Decimal False 12 22) = ''1.2e+21''"
  "number_text (Zero True) = ''0''"
  by (simp_all add: finite_text_def significant_def replicate_digits)

section \<open>Sequencing and loops\<close>

lemma andThen_returns [simp]: "andThen (returns x) f = f x"
  by (cases "f x") (simp add: returns_def)

lemma andThen_throws [simp]: "andThen (throws e) f = throws e"
  by (simp add: throws_def)

lemma andThen_Returns_fst:
  "fst m = Returns x \<Longrightarrow> andThen m f = (fst (f x), snd m @ snd (f x))"
  by (cases m) (auto split: prod.splits)

lemma snd_get [simp]: "snd (get x k) = []"
  by (cases "(x, k)" rule: get.cases) (simp_all add: returns_def throws_def)

lemma get_Returns: "fst (get x k) = Returns y \<Longrightarrow> get x k = returns y"
  by (cases "get x k") (use snd_get [of x k] in \<open>simp add: returns_def\<close>)

lemma approves_get: "approves a \<Longrightarrow> \<exists>x. get a ''value'' = returns x \<and> truthy x"
  unfolding approves_def by (auto split: outcome.splits dest: get_Returns)

lemma denies_get: "denies a \<Longrightarrow> \<exists>x. get a ''value'' = returns x \<and> \<not> truthy x"
  unfolding denies_def by (auto split: outcome.splits dest: get_Returns)

lemma first_denied_none: "list_all approves as \<Longrightarrow> first_denied as = returns None"
  by (induction as) (auto dest: approves_get)

lemma first_denied_some:
  "list_all approves as \<Longrightarrow> denies a \<Longrightarrow> first_denied (as @ a # as') = returns (Some a)"
  by (induction as) (auto dest: approves_get denies_get)

subsection \<open>Promise.all\<close>

lemma fulfil_Returns [simp]:
  "j < length xs \<Longrightarrow> fulfil (map Returns xs) j vals = vals[j := Some (xs ! j)]"
  by (simp add: fulfil_def)

lemma fulfil_outside [simp]: "\<not> j < length os \<Longrightarrow> fulfil os j vals = vals"
  by (simp add: fulfil_def)

lemma length_fulfil [simp]: "length (fulfil os j vals) = length vals"
  by (simp add: fulfil_def split: outcome.splits)

lemma length_fold_fulfil [simp]: "length (fold (fulfil os) l vals) = length vals"
  by (induction l arbitrary: vals) simp_all

lemma first_rejected_Nil [simp]: "first_rejected [] l = None"
  by (induction l) simp_all

lemma fold_fulfil_Nil [simp]: "fold (fulfil []) l [] = []"
  by (induction l) simp_all

lemma first_rejected_Returns [simp]: "first_rejected (map Returns xs) l = None"
  by (induction l) auto

lemma set_positions: "set (positions i xs) = {i..<i + length xs}"
  by (induction xs arbitrary: i) auto

lemma fold_fulfil_Returns:
  "length vals = length xs \<Longrightarrow> i < length xs \<Longrightarrow>
   fold (fulfil (map Returns xs)) l vals ! i = (if i \<in> set l then Some (xs ! i) else vals ! i)"
proof (induction l arbitrary: vals)
  case Nil
  then show ?case by simp
next
  case (Cons j l)
  show ?case
  proof (cases "j < length xs")
    case True
    have "fold (fulfil (map Returns xs)) l (vals[j := Some (xs ! j)]) ! i =
        (if i \<in> set l then Some (xs ! i) else vals[j := Some (xs ! j)] ! i)"
      using Cons.prems by (intro Cons.IH) simp_all
    then show ?thesis
      using True Cons.prems by (auto simp: nth_list_update)
  next
    case False
    then show ?thesis
      using Cons.IH [OF Cons.prems] Cons.prems by auto
  qed
qed

lemma those_map_Some [simp]: "those (map Some xs) = Some xs"
  by (induction xs) simp_all

lemma those_Some: "those vs = Some xs \<Longrightarrow> vs = map Some xs"
  by (induction vs arbitrary: xs) (auto split: option.splits)

text \<open>When every element returns, the array of vals is the same for every order.\<close>

lemma Promise_all_positional:
  assumes "map fst rs = map Returns xs"
  shows "fst (Promise_all order rs) = Returns xs"
proof -
  let ?turns = "order @ positions 0 (map Returns xs)"
  let ?vals = "fold (fulfil (map Returns xs)) ?turns (replicate (length xs) None)"
  have "?vals ! i = map Some xs ! i" if "i < length xs" for i
    using that by (simp add: fold_fulfil_Returns set_positions)
  then have "?vals = map Some xs"
    by (intro nth_equalityI) simp_all
  moreover have "\<not> list_ex exhausted (map Returns xs)"
    by (induction xs) simp_all
  ultimately show ?thesis
    using assms by (simp add: Promise_all_def Let_def)
qed

text \<open>A place of the array of vals is filled by the element at that position only.\<close>

lemma fold_fulfil_sound:
  assumes "length vals = length os"
    and "\<forall>i < length os. \<forall>x. vals ! i = Some x \<longrightarrow> os ! i = Returns x"
    and "i < length os" and "fold (fulfil os) l vals ! i = Some x"
  shows "os ! i = Returns x"
  using assms
proof (induction l arbitrary: vals)
  case Nil
  then show ?case by simp
next
  case (Cons j l)
  have "length (fulfil os j vals) = length os"
    using Cons.prems(1) by simp
  moreover have "\<forall>i < length os. \<forall>x. fulfil os j vals ! i = Some x \<longrightarrow> os ! i = Returns x"
    using Cons.prems(1,2) by (auto simp: fulfil_def nth_list_update split: outcome.splits)
  ultimately show ?case
    using Cons.prems(3,4) by (intro Cons.IH [of "fulfil os j vals"]) simp_all
qed

lemma Promise_all_Returns:
  assumes "fst (Promise_all order rs) = Returns xs"
  shows "map fst rs = map Returns xs"
proof -
  let ?os = "map fst rs"
  let ?vals = "fold (fulfil ?os) (order @ positions 0 ?os) (replicate (length ?os) None)"
  from assms have "those ?vals = Some xs"
    by (auto simp: Promise_all_def Let_def split: if_splits option.splits)
  then have vals: "?vals = map Some xs"
    by (rule those_Some)
  then have len: "length xs = length ?os"
    by (metis length_fold_fulfil length_map length_replicate)
  have "?os ! i = Returns (xs ! i)" if "i < length ?os" for i
  proof (rule fold_fulfil_sound [where vals = "replicate (length ?os) None"
        and l = "order @ positions 0 ?os"])
    show "fold (fulfil ?os) (order @ positions 0 ?os) (replicate (length ?os) None) ! i =
        Some (xs ! i)"
      using that len by (simp only: vals) simp
  qed (use that in simp_all)
  then show ?thesis
    using len by (intro nth_equalityI) simp_all
qed

lemma snd_Promise_all [simp]: "snd (Promise_all order rs) = fanout (map snd rs)"
  by (simp add: Promise_all_def Let_def)

lemma Promise_all_Nil [simp]: "Promise_all order [] = (Returns [], [])"
  by (simp add: Promise_all_def fanout_def)

lemma calls_append [simp]: "calls (t @ t') = calls t + calls t'"
  by (simp add: calls_def)

lemma calls_Nil [simp]: "calls [] = {#}"
  by (simp add: calls_def)

lemma calls_of_Fanout [simp]: "calls_of (Fanout ts) = sum_list (map calls ts)"
proof -
  have "sum_list \<circ> map calls_of = calls"
    by (rule ext) (simp add: calls_def)
  then show ?thesis by simp
qed

lemma calls_Cons [simp]: "calls (e # t) = calls_of e + calls t"
  by (simp add: calls_def)

lemma calls_fanout: "calls (fanout ts) = sum_list (map calls ts)"
proof -
  have "sum_list (map calls (filter (\<lambda>t. t \<noteq> []) ts)) = sum_list (map calls ts)"
    by (induction ts) simp_all
  moreover have "calls (fanout ts) = sum_list (map calls (filter (\<lambda>t. t \<noteq> []) ts))"
    by (simp add: fanout_def del: calls_of.simps(2) split: list.splits)
  ultimately show ?thesis by simp
qed

subsection \<open>The loop over the roles\<close>

lemma checkPermit_roles_pass:
  assumes "passes v F n privilege r"
  shows "checkPermit_roles v F n privilege (r # rest) =
     (fst (checkPermit_roles v F n privilege rest),
      snd (evaluatePrivilege v F n privilege r) @ snd (checkPermit_roles v F n privilege rest))"
proof -
  from assms obtain as where as: "fst (evaluatePrivilege v F n privilege r) = Returns as"
    "as \<noteq> []" "list_all approves as"
    unfolding passes_def by (auto split: outcome.splits)
  show ?thesis
    using as by (simp add: andThen_Returns_fst first_denied_none)
qed

lemma checkPermit_roles_skip:
  "list_all (passes v F n privilege) rs \<Longrightarrow>
   checkPermit_roles v F n privilege (rs @ rest) =
     (fst (checkPermit_roles v F n privilege rest),
      privilege_calls v F n privilege rs @ snd (checkPermit_roles v F n privilege rest))"
  by (induction rs)
    (simp_all add: privilege_calls_def checkPermit_roles_pass del: checkPermit_roles.simps)

lemma checkPermit_roles_empty:
  assumes "fst (evaluatePrivilege v F n privilege r) = Returns []"
    and "fst (get r ''error'') = Returns e"
  shows "checkPermit_roles v F n privilege (r # rest) =
     (Returns (denied e), snd (evaluatePrivilege v F n privilege r))"
  using assms by (simp add: andThen_Returns_fst get_Returns returns_def)

lemma checkPermit_roles_denied:
  assumes "fst (evaluatePrivilege v F n privilege r) = Returns (as @ a # as')"
    and "list_all approves as" and "denies a"
  shows "checkPermit_roles v F n privilege (r # rest) =
     (Returns a, snd (evaluatePrivilege v F n privilege r))"
  using assms by (simp add: andThen_Returns_fst first_denied_some returns_def)

section \<open>checkPermit\<close>

text \<open>
  C1. Let \<^verbatim>\<open>evaluatePermit\<close> return the roles. \<^verbatim>\<open>checkPermit\<close> goes through them in
  order. At the first role for which the privilege evaluates to no approval at all it
  returns \<^verbatim>\<open>{value: false, error: role.error}\<close>; at the first role whose approvals
  hold one that denies it returns the first such approval; in both cases the roles after
  it are not looked at (the recorded calls are those of the roles up to it, and nothing
  is asked of the later ones). When every role passes it returns \<^verbatim>\<open>{value: true}\<close>.
\<close>

theorem checkPermit_first_failure:
  assumes "fst (evaluatePermit v F n permit target) = Returns roles"
  shows "(list_all (passes v F n privilege) roles \<longrightarrow>
            checkPermit v F n permit privilege target =
              (Returns approved,
               snd (evaluatePermit v F n permit target) @ privilege_calls v F n privilege roles))
       \<and> (\<forall>rs r rs' e.
            roles = rs @ r # rs' \<and> list_all (passes v F n privilege) rs
            \<and> fst (evaluatePrivilege v F n privilege r) = Returns []
            \<and> fst (get r ''error'') = Returns e \<longrightarrow>
            checkPermit v F n permit privilege target =
              (Returns (denied e),
               snd (evaluatePermit v F n permit target) @ privilege_calls v F n privilege (rs @ [r])))
       \<and> (\<forall>rs r rs' as a as'.
            roles = rs @ r # rs' \<and> list_all (passes v F n privilege) rs
            \<and> fst (evaluatePrivilege v F n privilege r) = Returns (as @ a # as')
            \<and> list_all approves as \<and> denies a \<longrightarrow>
            checkPermit v F n permit privilege target =
              (Returns a,
               snd (evaluatePermit v F n permit target) @ privilege_calls v F n privilege (rs @ [r])))"
proof (intro conjI allI impI)
  assume "list_all (passes v F n privilege) roles"
  then have "checkPermit_roles v F n privilege (roles @ []) =
      (Returns approved, privilege_calls v F n privilege roles)"
    by (simp only: checkPermit_roles_skip) (simp add: returns_def)
  then show "checkPermit v F n permit privilege target =
      (Returns approved,
       snd (evaluatePermit v F n permit target) @ privilege_calls v F n privilege roles)"
    using assms by (simp add: checkPermit_def andThen_Returns_fst)
next
  fix rs r rs' e
  assume h: "roles = rs @ r # rs' \<and> list_all (passes v F n privilege) rs
      \<and> fst (evaluatePrivilege v F n privilege r) = Returns []
      \<and> fst (get r ''error'') = Returns e"
  then have "checkPermit_roles v F n privilege roles =
      (Returns (denied e), privilege_calls v F n privilege (rs @ [r]))"
    by (simp add: checkPermit_roles_skip checkPermit_roles_empty privilege_calls_def
          del: checkPermit_roles.simps)
  then show "checkPermit v F n permit privilege target =
      (Returns (denied e),
       snd (evaluatePermit v F n permit target) @ privilege_calls v F n privilege (rs @ [r]))"
    using assms by (simp add: checkPermit_def andThen_Returns_fst)
next
  fix rs r rs' as a as'
  assume h: "roles = rs @ r # rs' \<and> list_all (passes v F n privilege) rs
      \<and> fst (evaluatePrivilege v F n privilege r) = Returns (as @ a # as')
      \<and> list_all approves as \<and> denies a"
  then have "checkPermit_roles v F n privilege roles =
      (Returns a, privilege_calls v F n privilege (rs @ [r]))"
    by (simp add: checkPermit_roles_skip checkPermit_roles_denied privilege_calls_def
          del: checkPermit_roles.simps)
  then show "checkPermit v F n permit privilege target =
      (Returns a,
       snd (evaluatePermit v F n permit target) @ privilege_calls v F n privilege (rs @ [r]))"
    using assms by (simp add: checkPermit_def andThen_Returns_fst)
qed

text \<open>
  The three cases on the permit \<^verbatim>\<open>'x'\<close>: the privilege \<^verbatim>\<open>true\<close> approves; the
  privilege \<^verbatim>\<open>() => []\<close> says nothing, so the role's own error is reported; the privilege
  \<^verbatim>\<open>[true, false, true]\<close> yields its second approval.
\<close>

theorem checkPermit_first_failure_witness:
  "checkPermit First example_funs (Suc (Suc 0)) (Prim (JString ''x'')) (Prim (JBoolean True))
       (Prim JUndefined) = (Returns approved, [])
   \<and> checkPermit First example_funs (Suc (Suc 0)) (Prim (JString ''x'')) (JFunction 0)
       (Prim JUndefined) =
       (Returns (denied (Denial First ''Permit'' (JString ''x''))),
        [Called 0 [JObject ''Object''
               [(''value'', Prim (JString ''x'')),
                (''error'', Denial First ''Permit'' (JString ''x''))]]])
   \<and> checkPermit First example_funs (Suc (Suc 0)) (Prim (JString ''x''))
       (JArray [Prim (JBoolean True), Prim (JBoolean False), Prim (JBoolean True)])
       (Prim JUndefined) =
       (Returns (denied (Denial First ''Privilege'' (JBoolean False))), [])"
proof -
  let ?role = "JObject ''Object''
     [(''value'', Prim (JString ''x'')), (''error'', Denial First ''Permit'' (JString ''x''))]"
  have roles: "fst (evaluatePermit First example_funs (Suc (Suc 0)) (Prim (JString ''x''))
      (Prim JUndefined)) = Returns [?role]"
    by (simp add: returns_def)
  note spec = checkPermit_first_failure [OF roles]
  have 1: "list_all (passes First example_funs (Suc (Suc 0)) (Prim (JBoolean True))) [?role]"
    by (simp add: passes_def approves_def returns_def)
  have 2: "[?role] = [] @ ?role # []
      \<and> list_all (passes First example_funs (Suc (Suc 0)) (JFunction 0)) []
      \<and> fst (evaluatePrivilege First example_funs (Suc (Suc 0)) (JFunction 0) ?role) = Returns []
      \<and> fst (get ?role ''error'') = Returns (Denial First ''Permit'' (JString ''x''))"
    by (simp add: example_funs_def returns_def)
  let ?priv = "JArray [Prim (JBoolean True), Prim (JBoolean False), Prim (JBoolean True)]"
  have 3: "[?role] = [] @ ?role # []
      \<and> list_all (passes First example_funs (Suc (Suc 0)) ?priv) []
      \<and> fst (evaluatePrivilege First example_funs (Suc (Suc 0)) ?priv ?role) =
          Returns ([JObject ''Object''
              [(''value'', Prim (JBoolean True)),
               (''error'', Denial First ''Privilege'' (JBoolean True))]]
            @ denied (Denial First ''Privilege'' (JBoolean False))
            # [JObject ''Object''
              [(''value'', Prim (JBoolean True)),
               (''error'', Denial First ''Privilege'' (JBoolean True))]])
      \<and> list_all approves [JObject ''Object''
              [(''value'', Prim (JBoolean True)),
               (''error'', Denial First ''Privilege'' (JBoolean True))]]
      \<and> denies (denied (Denial First ''Privilege'' (JBoolean False)))"
    by (simp add: returns_def Promise_all_def Let_def fulfil_def fanout_def example_funs_def
        denied_def approves_def denies_def)
  show ?thesis
    using spec [of "Prim (JBoolean True)", THEN conjunct1, rule_format, OF 1]
      spec [of "JFunction 0", THEN conjunct2, THEN conjunct1, rule_format, OF 2]
      spec [of ?priv, THEN conjunct2, THEN conjunct2, rule_format, OF 3]
    by (simp add: privilege_calls_def example_funs_def returns_def Promise_all_def Let_def
        fulfil_def fanout_def)
qed

text \<open>
  C8. A string permit evaluates to exactly one role, \<^verbatim>\<open>{value: s, error: Denial('Permit', s)}\<close>,
  whatever the target. Hence \<^verbatim>\<open>checkPermit('x', (role) => [], t)\<close>, whose privilege
  says nothing about the role, returns \<^verbatim>\<open>{value: false, error: Denial('Permit', 'x')}\<close>.
\<close>

theorem evaluatePermit_string:
  "evaluatePermit v F (Suc n) (Prim (JString s)) target =
     (Returns [JObject ''Object''
        [(''value'', Prim (JString s)), (''error'', Denial v ''Permit'' (JString s))]], [])
   \<and> ((\<forall>role. results F f [role] = Returns (JArray [])) \<longrightarrow>
        fst (checkPermit v F (Suc (Suc n)) (Prim (JString ''x'')) (JFunction f) target) =
          Returns (JObject ''Object''
            [(''value'', Prim (JBoolean False)),
             (''error'', Denial v ''Permit'' (JString ''x''))]))"
  by (simp add: checkPermit_def returns_def denied_def)

theorem evaluatePermit_string_witness:
  "(\<forall>role. results example_funs 0 [role] = Returns (JArray []))
   \<and> fst (checkPermit Second example_funs (Suc (Suc 0)) (Prim (JString ''x'')) (JFunction 0)
        (Prim (JNumber (Decimal False 7 1)))) =
          Returns (JObject ''Object''
            [(''value'', Prim (JBoolean False)),
             (''error'', Denial Second ''Permit'' (JString ''x''))])"
  using evaluatePermit_string [of Second example_funs 0 "''x''"
      "Prim (JNumber (Decimal False 7 1))" 0]
  by (simp add: example_funs_def)

text \<open>
  C9. An empty array as permit yields no role, and \<^verbatim>\<open>checkPermit\<close> returns
  \<^verbatim>\<open>{value: true}\<close>, an object with no \<^verbatim>\<open>error\<close> field, for every privilege and target.
  \<^verbatim>\<open>checkPermission\<close> of an empty array denies with \<^verbatim>\<open>Denial('Approval')\<close> instead.
\<close>

theorem checkPermit_empty_array:
  "checkPermit v F (Suc n) (JArray []) privilege target =
     (Returns (JObject ''Object'' [(''value'', Prim (JBoolean True))]), [])
   \<and> checkPermission v F (Suc n) (JArray []) privilege target =
     (Returns (JObject ''Object''
        [(''value'', Prim (JBoolean False)), (''error'', Denial v ''Approval'' JUndefined)]), [])"
  by (simp add: checkPermit_def checkPermission_def returns_def approved_def denied_def)

section \<open>checkPermission\<close>

text \<open>
  C2. \<^verbatim>\<open>checkPermission\<close> returns \<^verbatim>\<open>{value: false, error: Denial('Approval')}\<close> when the
  permission evaluates to no approval at all, otherwise the first approval that denies,
  otherwise \<^verbatim>\<open>{value: true}\<close>. In particular, for every privilege and target, the
  permission \<^verbatim>\<open>[]\<close> gives \<^verbatim>\<open>{value: false, error: Denial('Approval')}\<close> and the
  permission \<^verbatim>\<open>false\<close> gives \<^verbatim>\<open>{value: false, error: Denial('Permission', false)}\<close>.
\<close>

theorem checkPermission_first_failure:
  "(fst (evaluatePermission v F n permission privilege target) = Returns [] \<longrightarrow>
      checkPermission v F n permission privilege target =
        (Returns (denied (Denial v ''Approval'' JUndefined)),
         snd (evaluatePermission v F n permission privilege target)))
   \<and> (\<forall>as a as'.
        fst (evaluatePermission v F n permission privilege target) = Returns (as @ a # as')
        \<and> list_all approves as \<and> denies a \<longrightarrow>
        checkPermission v F n permission privilege target =
          (Returns a, snd (evaluatePermission v F n permission privilege target)))
   \<and> (\<forall>as.
        fst (evaluatePermission v F n permission privilege target) = Returns as
        \<and> as \<noteq> [] \<and> list_all approves as \<longrightarrow>
        checkPermission v F n permission privilege target =
          (Returns approved, snd (evaluatePermission v F n permission privilege target)))
   \<and> checkPermission v F (Suc n) (JArray []) privilege target =
       (Returns (denied (Denial v ''Approval'' JUndefined)), [])
   \<and> checkPermission v F (Suc n) (Prim (JBoolean False)) privilege target =
       (Returns (denied (Denial v ''Permission'' (JBoolean False))), [])"
proof (intro conjI allI impI)
  assume "fst (evaluatePermission v F n permission privilege target) = Returns []"
  then show "checkPermission v F n permission privilege target =
      (Returns (denied (Denial v ''Approval'' JUndefined)),
       snd (evaluatePermission v F n permission privilege target))"
    by (simp add: checkPermission_def andThen_Returns_fst returns_def)
next
  fix as a as'
  assume "fst (evaluatePermission v F n permission privilege target) = Returns (as @ a # as')
      \<and> list_all approves as \<and> denies a"
  then show "checkPermission v F n permission privilege target =
      (Returns a, snd (evaluatePermission v F n permission privilege target))"
    by (simp add: checkPermission_def andThen_Returns_fst first_denied_some returns_def)
next
  fix as
  assume "fst (evaluatePermission v F n permission privilege target) = Returns as
      \<and> as \<noteq> [] \<and> list_all approves as"
  then show "checkPermission v F n permission privilege target =
      (Returns approved, snd (evaluatePermission v F n permission privilege target))"
    by (simp add: checkPermission_def andThen_Returns_fst first_denied_none returns_def)
next
  show "checkPermission v F (Suc n) (JArray []) privilege target =
      (Returns (denied (Denial v ''Approval'' JUndefined)), [])"
    by (simp add: checkPermission_def returns_def)
next
  show "checkPermission v F (Suc n) (Prim (JBoolean False)) privilege target =
      (Returns (denied (Denial v ''Permission'' (JBoolean False))), [])"
    by (simp add: checkPermission_def returns_def denied_def)
qed

text \<open>
  The permission \<^verbatim>\<open>() => []\<close> says nothing, \<^verbatim>\<open>[true, false]\<close> yields its second
  approval, \<^verbatim>\<open>true\<close> approves.
\<close>

theorem checkPermission_first_failure_witness:
  "checkPermission First example_funs (Suc (Suc 0)) (JFunction 0) (Prim (JBoolean True))
       (Prim JUndefined) =
     (Returns (denied (Denial First ''Approval'' JUndefined)),
      [Called 0 [Prim (JBoolean True), Prim JUndefined]])
   \<and> checkPermission First example_funs (Suc (Suc 0))
       (JArray [Prim (JBoolean True), Prim (JBoolean False)]) (Prim (JBoolean True))
       (Prim JUndefined) =
     (Returns (denied (Denial First ''Permission'' (JBoolean False))), [])
   \<and> checkPermission First example_funs (Suc (Suc 0)) (Prim (JBoolean True))
       (Prim (JBoolean True)) (Prim JUndefined) = (Returns approved, [])"
proof -
  let ?yes = "JObject ''Object''
     [(''value'', Prim (JBoolean True)), (''error'', Denial First ''Permission'' (JBoolean True))]"
  let ?no = "denied (Denial First ''Permission'' (JBoolean False))"
  have 1: "fst (evaluatePermission First example_funs (Suc (Suc 0)) (JFunction 0)
      (Prim (JBoolean True)) (Prim JUndefined)) = Returns []"
    by (simp add: example_funs_def returns_def)
  have 2: "fst (evaluatePermission First example_funs (Suc (Suc 0))
        (JArray [Prim (JBoolean True), Prim (JBoolean False)]) (Prim (JBoolean True))
        (Prim JUndefined)) = Returns ([?yes] @ ?no # [])
      \<and> list_all approves [?yes] \<and> denies ?no"
    by (simp add: returns_def Promise_all_def Let_def fulfil_def fanout_def example_funs_def
        denied_def approves_def denies_def)
  have 3: "fst (evaluatePermission First example_funs (Suc (Suc 0)) (Prim (JBoolean True))
        (Prim (JBoolean True)) (Prim JUndefined)) = Returns [?yes]
      \<and> [?yes] \<noteq> [] \<and> list_all approves [?yes]"
    by (simp add: returns_def approves_def)
  show ?thesis
    using
      checkPermission_first_failure [of First example_funs "Suc (Suc 0)" "JFunction 0"
        "Prim (JBoolean True)" "Prim JUndefined", THEN conjunct1, rule_format, OF 1]
      checkPermission_first_failure [of First example_funs "Suc (Suc 0)"
        "JArray [Prim (JBoolean True), Prim (JBoolean False)]"
        "Prim (JBoolean True)" "Prim JUndefined", THEN conjunct2, THEN conjunct1,
        rule_format, OF 2]
      checkPermission_first_failure [of First example_funs "Suc (Suc 0)" "Prim (JBoolean True)"
        "Prim (JBoolean True)" "Prim JUndefined", THEN conjunct2, THEN conjunct2,
        THEN conjunct1, rule_format, OF 3]
    by (simp add: example_funs_def returns_def Promise_all_def Let_def fulfil_def
        fanout_def)
qed

section \<open>checkPermits\<close>

lemma checkPermits_pass:
  assumes "check_passes v F n c"
  shows "checkPermits v F n (c # rest) =
     (fst (checkPermits v F n rest), check_calls v F n [c] @ snd (checkPermits v F n rest))"
proof -
  obtain permit privilege target where c: "c = (permit, privilege, target)"
    by (cases c)
  from assms c obtain a where a: "fst (checkPermit v F n permit privilege target) = Returns a"
    "approves a"
    unfolding check_passes_def by (auto split: outcome.splits)
  from a(2) obtain x where x: "get a ''value'' = returns x" "truthy x"
    by (auto dest: approves_get)
  show ?thesis
    using a(1) x by (simp add: c check_calls_def andThen_Returns_fst)
qed

lemma check_calls_append:
  "check_calls v F n (ps @ qs) = check_calls v F n ps @ check_calls v F n qs"
  by (simp add: check_calls_def)

lemma checkPermits_skip:
  "list_all (check_passes v F n) ps \<Longrightarrow>
   checkPermits v F n (ps @ rest) =
     (fst (checkPermits v F n rest), check_calls v F n ps @ snd (checkPermits v F n rest))"
proof (induction ps)
  case Nil
  then show ?case by (simp add: check_calls_def)
next
  case (Cons c ps)
  then show ?case
    using check_calls_append [of v F n "[c]" ps]
    by (simp add: checkPermits_pass del: checkPermits.simps)
qed

lemma checkPermits_denied:
  assumes "fst (checkPermit v F n permit privilege target) = Returns a" and "denies a"
  shows "checkPermits v F n ((permit, privilege, target) # rest) =
     (Returns a, check_calls v F n [(permit, privilege, target)])"
proof -
  from assms(2) obtain x where x: "get a ''value'' = returns x" "\<not> truthy x"
    by (auto dest: denies_get)
  show ?thesis
    using assms(1) x by (simp add: check_calls_def andThen_Returns_fst returns_def)
qed

text \<open>
  C7. \<^verbatim>\<open>checkPermits\<close> runs the checks in order and returns the approval of the first
  check that fails. The checks after it are never evaluated: the recorded calls are
  those of the checks up to the failing one, and the result is the same whatever the
  later checks are. When no check fails it returns \<^verbatim>\<open>{value: true}\<close>.
\<close>

theorem checkPermits_first_failure:
  "(\<forall>ps permit privilege target ps' a.
      permits = ps @ (permit, privilege, target) # ps'
      \<and> list_all (check_passes v F n) ps
      \<and> fst (checkPermit v F n permit privilege target) = Returns a \<and> denies a \<longrightarrow>
      checkPermits v F n permits =
        (Returns a, check_calls v F n (ps @ [(permit, privilege, target)]))
      \<and> (\<forall>others. checkPermits v F n (ps @ (permit, privilege, target) # others) =
            checkPermits v F n permits))
   \<and> (list_all (check_passes v F n) permits \<longrightarrow>
        checkPermits v F n permits = (Returns approved, check_calls v F n permits))"
proof (intro conjI allI impI)
  fix ps permit privilege target ps' a
  assume h: "permits = ps @ (permit, privilege, target) # ps'
      \<and> list_all (check_passes v F n) ps
      \<and> fst (checkPermit v F n permit privilege target) = Returns a \<and> denies a"
  have *: "checkPermits v F n (ps @ (permit, privilege, target) # others) =
      (Returns a, check_calls v F n (ps @ [(permit, privilege, target)]))" for others
    using h by (simp add: checkPermits_skip checkPermits_denied check_calls_append
        del: checkPermits.simps)
  show "checkPermits v F n permits =
      (Returns a, check_calls v F n (ps @ [(permit, privilege, target)]))"
    using * [of ps'] h by simp
  fix others
  show "checkPermits v F n (ps @ (permit, privilege, target) # others) =
      checkPermits v F n permits"
    using * [of ps'] * [of others] h by simp
next
  assume "list_all (check_passes v F n) permits"
  then have "checkPermits v F n (permits @ []) = (Returns approved, check_calls v F n permits)"
    by (simp only: checkPermits_skip) (simp add: returns_def)
  then show "checkPermits v F n permits = (Returns approved, check_calls v F n permits)"
    by simp
qed

text \<open>
  The check of \<^verbatim>\<open>'y'\<close> against \<^verbatim>\<open>false\<close> fails; the check after it, whose permit and
  privilege are the function that throws when called, leaves no trace.
\<close>

theorem checkPermits_first_failure_witness:
  "checkPermits First example_funs (Suc (Suc 0))
       [(Prim (JString ''x''), Prim (JBoolean True), Prim JUndefined),
        (Prim (JString ''y''), Prim (JBoolean False), Prim JUndefined),
        (JFunction 1, JFunction 1, Prim JUndefined)] =
     (Returns (denied (Denial First ''Privilege'' (JBoolean False))), [])
   \<and> checkPermits First example_funs (Suc (Suc 0))
       [(Prim (JString ''x''), Prim (JBoolean True), Prim JUndefined),
        (Prim (JString ''y''), Prim (JBoolean False), Prim JUndefined)] =
     (Returns (denied (Denial First ''Privilege'' (JBoolean False))), [])
   \<and> checkPermits First example_funs (Suc (Suc 0))
       [(Prim (JString ''x''), Prim (JBoolean True), Prim JUndefined)] =
     (Returns approved, [])"
proof -
  let ?x = "(Prim (JString ''x''), Prim (JBoolean True), Prim JUndefined)"
  let ?y = "(Prim (JString ''y''), Prim (JBoolean False), Prim JUndefined)"
  let ?spy = "(JFunction 1, JFunction 1, Prim JUndefined)"
  let ?no = "denied (Denial First ''Privilege'' (JBoolean False))"
  have 1: "[?x, ?y, ?spy] = [?x] @ (Prim (JString ''y''), Prim (JBoolean False), Prim JUndefined) # [?spy]
      \<and> list_all (check_passes First example_funs (Suc (Suc 0))) [?x]
      \<and> fst (checkPermit First example_funs (Suc (Suc 0)) (Prim (JString ''y''))
            (Prim (JBoolean False)) (Prim JUndefined)) = Returns ?no
      \<and> denies ?no"
    by (simp add: check_passes_def checkPermit_def returns_def approves_def denies_def
        denied_def approved_def)
  have 2: "list_all (check_passes First example_funs (Suc (Suc 0))) [?x]"
    by (simp add: check_passes_def checkPermit_def returns_def approves_def approved_def)
  note a = checkPermits_first_failure [of "[?x, ?y, ?spy]" First example_funs "Suc (Suc 0)",
        THEN conjunct1, rule_format, OF 1]
  show ?thesis
    using a [THEN conjunct1] a [THEN conjunct2, rule_format, of "[]"]
      checkPermits_first_failure [of "[?x]" First example_funs "Suc (Suc 0)",
        THEN conjunct2, rule_format, OF 2]
    by (simp add: check_calls_def checkPermit_def returns_def)
qed

section \<open>Arrays of permits\<close>

subsection \<open>A larger recursion bound keeps a returned result\<close>

lemma andThen_Returns_elim:
  assumes "fst (andThen m f) = Returns y"
  obtains x where "fst m = Returns x" and "fst (f x) = Returns y"
  using assms by (cases m; cases "fst m") (auto split: prod.splits)

lemma andThen_cong_Returns:
  assumes "fst (andThen m f) = Returns y"
    and "\<And>x y'. fst (f x) = Returns y' \<Longrightarrow> g x = f x"
  shows "andThen m g = andThen m f"
proof -
  from assms(1) obtain x where x: "fst m = Returns x" "fst (f x) = Returns y"
    by (rule andThen_Returns_elim)
  then have "g x = f x" using assms(2) by blast
  then show ?thesis using x by (simp add: andThen_Returns_fst)
qed

lemma map_fst_Returns:
  "map fst rs = map Returns xs \<Longrightarrow> \<forall>r \<in> set rs. \<exists>x. fst r = Returns x"
  by (induction rs arbitrary: xs) auto

lemma evaluatePermit_mono_Suc:
  "fst (evaluatePermit v F n permit target) = Returns roles \<Longrightarrow>
   evaluatePermit v F (Suc n) permit target = evaluatePermit v F n permit target"
proof (induction n arbitrary: permit roles)
  case 0
  then show ?case by simp
next
  case (Suc n)
  let ?f = "\<lambda>it. evaluatePermit v F n it target"
  let ?g = "\<lambda>it. evaluatePermit v F (Suc n) it target"
  let ?order = "settles F ''evaluatePermit'' [permit, target]"
  have step: "?g x = ?f x" if "fst (?f x) = Returns y" for x y
    using Suc.IH that by blast
  consider (promise) "instanceof_Promise permit"
    | (array) "\<not> instanceof_Promise permit" "isArray permit"
    | (func) "\<not> instanceof_Promise permit" "\<not> isArray permit"
        "typeof permit \<noteq> ''string''" "typeof permit \<noteq> ''object''" "typeof permit = ''function''"
    | (other) "\<not> instanceof_Promise permit" "\<not> isArray permit"
        "typeof permit = ''string'' \<or> typeof permit = ''object'' \<or> typeof permit \<noteq> ''function''"
    by blast
  then show ?case
  proof cases
    case promise
    with Suc.prems have "fst (andThen (await permit) ?f) = Returns roles"
      by simp
    then have "andThen (await permit) ?g = andThen (await permit) ?f"
      by (rule andThen_cong_Returns) (rule step)
    with promise show ?thesis
      by (simp del: evaluatePermit.simps add: evaluatePermit.simps(2) [of v F _ permit target])
  next
    case array
    with Suc.prems have
      "fst (andThen (Promise_all ?order (map ?f (elements permit))) (\<lambda>it. returns (concat it))) =
        Returns roles"
      by simp
    then obtain rs where "fst (Promise_all ?order (map ?f (elements permit))) = Returns rs"
      by (rule andThen_Returns_elim)
    then have "map fst (map ?f (elements permit)) = map Returns rs"
      by (rule Promise_all_Returns)
    then have "\<forall>r \<in> set (map ?f (elements permit)). \<exists>y. fst r = Returns y"
      by (rule map_fst_Returns)
    then have "\<forall>x \<in> set (elements permit). \<exists>y. fst (?f x) = Returns y"
      by simp
    then have "\<forall>x \<in> set (elements permit). ?g x = ?f x"
      using step by blast
    then have eq: "map ?g (elements permit) = map ?f (elements permit)"
      by simp
    have "evaluatePermit v F (Suc (Suc n)) permit target =
        andThen (Promise_all ?order (map ?g (elements permit))) (\<lambda>it. returns (concat it))"
      using array by (simp del: evaluatePermit.simps add: evaluatePermit.simps(2))
    also have "\<dots> =
        andThen (Promise_all ?order (map ?f (elements permit))) (\<lambda>it. returns (concat it))"
      by (simp only: eq)
    also have "\<dots> = evaluatePermit v F (Suc n) permit target"
      using array by simp
    finally show ?thesis .
  next
    case func
    with Suc.prems have
      "fst (andThen (andThen (call F permit [target]) await) ?f) = Returns roles"
      by simp
    then have "andThen (andThen (call F permit [target]) await) ?g =
        andThen (andThen (call F permit [target]) await) ?f"
      by (rule andThen_cong_Returns) (rule step)
    with func show ?thesis
      by (simp del: evaluatePermit.simps add: evaluatePermit.simps(2) [of v F _ permit target])
  next
    case other
    then show ?thesis
      by (auto simp del: evaluatePermit.simps
          simp add: evaluatePermit.simps(2) [of v F _ permit target])
  qed
qed

lemma evaluatePermit_mono:
  assumes "fst (evaluatePermit v F n permit target) = Returns roles" and "n \<le> m"
  shows "evaluatePermit v F m permit target = evaluatePermit v F n permit target"
  using assms(2, 1)
proof (induction m rule: dec_induct)
  case base
  then show ?case by simp
next
  case (step k)
  then show ?case by (metis evaluatePermit_mono_Suc)
qed

text \<open>
  C3. The array \<^verbatim>\<open>[p1, p2]\<close> evaluates to the roles of \<^verbatim>\<open>p1\<close> followed by the roles of
  \<^verbatim>\<open>p2\<close>: when both return within some recursion bound, then under every larger bound
  they return the same roles and the array returns their concatenation in that order,
  in whichever order the two evaluations settle (the array of values that
  \<^verbatim>\<open>Promise.all\<close> fills is the same for every order). Both elements are evaluated
  whatever the outcome of either: the record of the array holds the records of both
  side by side, and the calls made for the array are those made for \<^verbatim>\<open>p1\<close> together
  with those made for \<^verbatim>\<open>p2\<close>, also when one of them throws.
\<close>

theorem evaluatePermit_pair:
  "snd (evaluatePermit v F (Suc n) (JArray [p1, p2]) target) =
     fanout [snd (evaluatePermit v F n p1 target), snd (evaluatePermit v F n p2 target)]
   \<and> calls (snd (evaluatePermit v F (Suc n) (JArray [p1, p2]) target)) =
       calls (snd (evaluatePermit v F n p1 target)) + calls (snd (evaluatePermit v F n p2 target))
   \<and> (fst (evaluatePermit v F n p1 target) = Returns r1
        \<and> fst (evaluatePermit v F n p2 target) = Returns r2 \<and> n < m \<longrightarrow>
        fst (evaluatePermit v F m p1 target) = Returns r1
        \<and> fst (evaluatePermit v F m p2 target) = Returns r2
        \<and> evaluatePermit v F m (JArray [p1, p2]) target =
            (Returns (r1 @ r2),
             fanout [snd (evaluatePermit v F m p1 target), snd (evaluatePermit v F m p2 target)])
        \<and> (\<forall>order. fst (Promise_all order
              [evaluatePermit v F m p1 target, evaluatePermit v F m p2 target]) =
            Returns [r1, r2]))"
proof -
  let ?order = "settles F ''evaluatePermit'' [JArray [p1, p2], target]"
  have trace: "snd (evaluatePermit v F (Suc k) (JArray [p1, p2]) target) =
      fanout [snd (evaluatePermit v F k p1 target), snd (evaluatePermit v F k p2 target)]" for k
    by (cases "fst (Promise_all ?order
          [evaluatePermit v F k p1 target, evaluatePermit v F k p2 target])";
        cases "Promise_all ?order
          [evaluatePermit v F k p1 target, evaluatePermit v F k p2 target]")
      (use snd_Promise_all [of ?order
          "[evaluatePermit v F k p1 target, evaluatePermit v F k p2 target]"]
        in \<open>auto simp: returns_def\<close>)
  have called: "calls (snd (evaluatePermit v F (Suc n) (JArray [p1, p2]) target)) =
      calls (snd (evaluatePermit v F n p1 target)) + calls (snd (evaluatePermit v F n p2 target))"
    by (simp only: trace calls_fanout) simp
  have result: "fst (evaluatePermit v F m p1 target) = Returns r1
      \<and> fst (evaluatePermit v F m p2 target) = Returns r2
      \<and> evaluatePermit v F m (JArray [p1, p2]) target =
          (Returns (r1 @ r2),
           fanout [snd (evaluatePermit v F m p1 target), snd (evaluatePermit v F m p2 target)])
      \<and> (\<forall>order. fst (Promise_all order
            [evaluatePermit v F m p1 target, evaluatePermit v F m p2 target]) =
          Returns [r1, r2])"
    if h: "fst (evaluatePermit v F n p1 target) = Returns r1
      \<and> fst (evaluatePermit v F n p2 target) = Returns r2 \<and> n < m"
  proof -
    from h obtain k where k: "m = Suc k" "n \<le> k"
      by (cases m) auto
    have m1: "evaluatePermit v F (Suc k) p1 target = evaluatePermit v F n p1 target"
      and m2: "evaluatePermit v F (Suc k) p2 target = evaluatePermit v F n p2 target"
      using h k by (simp_all add: evaluatePermit_mono [where n = n and m = "Suc k"]
          del: evaluatePermit.simps)
    have k1: "evaluatePermit v F k p1 target = evaluatePermit v F n p1 target"
      and k2: "evaluatePermit v F k p2 target = evaluatePermit v F n p2 target"
      using h k by (simp_all add: evaluatePermit_mono [where n = n and m = k])
    have positional: "fst (Promise_all order
        [evaluatePermit v F n p1 target, evaluatePermit v F n p2 target]) = Returns [r1, r2]"
      for order
      using h by (intro Promise_all_positional) simp
    have "fst (evaluatePermit v F (Suc k) (JArray [p1, p2]) target) = Returns (r1 @ r2)"
      using positional [of ?order] by (simp add: k1 k2 andThen_Returns_fst returns_def)
    then have "evaluatePermit v F (Suc k) (JArray [p1, p2]) target =
        (Returns (r1 @ r2),
         fanout [snd (evaluatePermit v F n p1 target), snd (evaluatePermit v F n p2 target)])"
      using trace [of k] by (simp only: k1 k2 prod_eq_iff fst_conv snd_conv)
    then show ?thesis
      unfolding k(1) using h positional by (simp add: m1 m2 del: evaluatePermit.simps)
  qed
  show ?thesis
    using trace [of n] called result by blast
qed

text \<open>
  The permit \<^verbatim>\<open>[f3, f5]\<close>, where \<^verbatim>\<open>f3\<close> returns \<^verbatim>\<open>f4\<close>, which returns \<^verbatim>\<open>'a'\<close>, and \<^verbatim>\<open>f5\<close>
  returns \<^verbatim>\<open>'b'\<close>. The roles are those of \<^verbatim>\<open>'a'\<close> and \<^verbatim>\<open>'b'\<close> in that order although the
  second element settles first, and the same when the elements settle in the order of
  the array. The record puts the call of \<^verbatim>\<open>f3\<close> before that of \<^verbatim>\<open>f4\<close> and the call of
  \<^verbatim>\<open>f5\<close> beside them (the code calls \<^verbatim>\<open>f3\<close>, \<^verbatim>\<open>f5\<close>, \<^verbatim>\<open>f4\<close>).
\<close>

theorem evaluatePermit_pair_witness:
  "evaluatePermit First example_funs (Suc (Suc (Suc (Suc 0))))
     (JArray [JFunction 3, JFunction 5]) (Prim JUndefined) =
   (Returns
     [JObject ''Object''
       [(''value'', Prim (JString ''a'')), (''error'', Denial First ''Permit'' (JString ''a''))],
      JObject ''Object''
       [(''value'', Prim (JString ''b'')), (''error'', Denial First ''Permit'' (JString ''b''))]],
    [Fanout [[Called 3 [Prim JUndefined], Called 4 [Prim JUndefined]],
             [Called 5 [Prim JUndefined]]]])
   \<and> evaluatePermit First (example_funs\<lparr>settles := \<lambda>name args. [0, 1]\<rparr>)
       (Suc (Suc (Suc (Suc 0)))) (JArray [JFunction 3, JFunction 5]) (Prim JUndefined) =
     evaluatePermit First example_funs (Suc (Suc (Suc (Suc 0))))
       (JArray [JFunction 3, JFunction 5]) (Prim JUndefined)"
proof -
  let ?a = "JObject ''Object''
       [(''value'', Prim (JString ''a'')), (''error'', Denial First ''Permit'' (JString ''a''))]"
  let ?b = "JObject ''Object''
       [(''value'', Prim (JString ''b'')), (''error'', Denial First ''Permit'' (JString ''b''))]"
  let ?other = "example_funs\<lparr>settles := \<lambda>name args. [0, 1]\<rparr>"
  have h: "fst (evaluatePermit First example_funs (Suc (Suc (Suc 0))) (JFunction 3)
        (Prim JUndefined)) = Returns [?a]
      \<and> fst (evaluatePermit First example_funs (Suc (Suc (Suc 0))) (JFunction 5)
        (Prim JUndefined)) = Returns [?b]
      \<and> Suc (Suc (Suc 0)) < Suc (Suc (Suc (Suc 0)))"
    by (simp add: example_funs_def returns_def)
  have h': "fst (evaluatePermit First ?other (Suc (Suc (Suc 0))) (JFunction 3)
        (Prim JUndefined)) = Returns [?a]
      \<and> fst (evaluatePermit First ?other (Suc (Suc (Suc 0))) (JFunction 5)
        (Prim JUndefined)) = Returns [?b]
      \<and> Suc (Suc (Suc 0)) < Suc (Suc (Suc (Suc 0)))"
    by (simp add: example_funs_def returns_def)
  show ?thesis
    using evaluatePermit_pair [of First example_funs "Suc (Suc (Suc 0))" "JFunction 3"
        "JFunction 5" "Prim JUndefined" "[?a]" "[?b]" "Suc (Suc (Suc (Suc 0)))",
        THEN conjunct2, THEN conjunct2, rule_format, OF h]
      evaluatePermit_pair [of First ?other "Suc (Suc (Suc 0))" "JFunction 3"
        "JFunction 5" "Prim JUndefined" "[?a]" "[?b]" "Suc (Suc (Suc (Suc 0)))",
        THEN conjunct2, THEN conjunct2, rule_format, OF h']
    by (simp add: example_funs_def returns_def Promise_all_def Let_def fulfil_def fanout_def)
qed

section \<open>requirePermit and requirePermission\<close>

text \<open>
  C4 as stated fails on its first half: \<^verbatim>\<open>requirePermit('x', false, t)\<close> throws the denial
  made by \<^verbatim>\<open>evaluatePrivilege\<close> for the privilege \<^verbatim>\<open>false\<close>, whose cause is
  \<^verbatim>\<open>'Privilege'\<close>, not \<^verbatim>\<open>'Permit'\<close>: that denial is an object, so \<^verbatim>\<open>requirePermit\<close>
  throws it as it is.
\<close>

theorem requirePermit_false_counterexample:
  "requirePermit First example_funs (Suc 0) (Prim (JString ''x'')) (Prim (JBoolean False))
      (Prim JUndefined) =
     (Throws (JObject ''Denial''
        [(''message'', Prim (JString ''Denial: Privilege'')),
         (''cause'', Prim (JString ''Privilege'')),
         (''value'', Prim (JBoolean False))]), [])
   \<and> fst (requirePermit First example_funs (Suc 0) (Prim (JString ''x''))
        (Prim (JBoolean False)) (Prim JUndefined)) \<noteq>
       Throws (Denial First ''Permit'' (JBoolean False))
   \<and> fst (requirePermit Second example_funs (Suc 0) (Prim (JString ''x''))
        (Prim (JBoolean False)) (Prim JUndefined)) \<noteq>
       Throws (Denial Second ''Permit'' (JBoolean False))"
  by (simp add: requirePermit_def checkPermit_def returns_def throws_def throw_error_def
      Denial_def)

text \<open>
  C4, amended. For every target, \<^verbatim>\<open>requirePermit('x', false, t)\<close> throws a denial whose
  \<^verbatim>\<open>cause\<close> is \<^verbatim>\<open>'Privilege'\<close> and whose \<^verbatim>\<open>value\<close> is \<^verbatim>\<open>false\<close>; and
  \<^verbatim>\<open>requirePermit('x', {value: false, error: e}, t)\<close> with an error object \<^verbatim>\<open>e\<close> throws
  \<^verbatim>\<open>e\<close> itself.
\<close>

theorem requirePermit_throws:
  "requirePermit v F (Suc n) (Prim (JString ''x'')) (Prim (JBoolean False)) target =
     (Throws (Denial v ''Privilege'' (JBoolean False)), [])
   \<and> get (Denial v ''Privilege'' (JBoolean False)) ''cause'' =
       (Returns (Prim (JString ''Privilege'')), [])
   \<and> get (Denial v ''Privilege'' (JBoolean False)) ''value'' =
       (Returns (Prim (JBoolean False)), [])
   \<and> requirePermit v F (Suc n) (Prim (JString ''x''))
       (JObject ''Object'' [(''value'', Prim (JBoolean False)), (''error'', JObject c fs)])
       target =
     (Throws (JObject c fs), [])"
  by (simp add: requirePermit_def checkPermit_def returns_def throws_def throw_error_def
      Denial_def)

text \<open>
  C5 says that \<^verbatim>\<open>requirePermission\<close> wraps an error of a primitive type into a denial
  tagged \<^verbatim>\<open>'Permission'\<close> and throws any other error as it is, and that
  \<^verbatim>\<open>requirePermit\<close> tags with \<^verbatim>\<open>'Permit'\<close>. The second version does so. In the first
  version \<^verbatim>\<open>requirePermission\<close> tags with \<^verbatim>\<open>'Permit'\<close>: for the permission
  \<^verbatim>\<open>{value: false, error: 'no'}\<close> it throws \<^verbatim>\<open>Denial('Permit', 'no')\<close> where the second
  version throws \<^verbatim>\<open>Denial('Permission', 'no')\<close>.
\<close>

theorem requirePermission_tag_versions:
  "requirePermission First F (Suc n)
       (JObject ''Object'' [(''value'', Prim (JBoolean False)), (''error'', Prim (JString ''no''))])
       privilege target =
     (Throws (Denial First ''Permit'' (JString ''no'')), [])
   \<and> requirePermission Second F (Suc n)
       (JObject ''Object'' [(''value'', Prim (JBoolean False)), (''error'', Prim (JString ''no''))])
       privilege target =
     (Throws (Denial Second ''Permission'' (JString ''no'')), [])
   \<and> requirePermission v F (Suc n)
       (JObject ''Object'' [(''value'', Prim (JBoolean False)), (''error'', e)])
       privilege target =
     (if typeof e \<in> {''string'', ''boolean'', ''undefined'', ''bigint'', ''number''}
      then (Throws (Denial v (requirePermission_tag v) (the_prim e)), [])
      else (Throws e, []))
   \<and> requirePermit v F (Suc n) (Prim (JString ''x''))
       (JObject ''Object'' [(''value'', Prim (JBoolean False)), (''error'', e)])
       target =
     (if typeof e \<in> {''string'', ''boolean'', ''undefined'', ''bigint'', ''number''}
      then (Throws (Denial v ''Permit'' (the_prim e)), [])
      else (Throws e, []))"
  by (simp add: requirePermission_def checkPermission_def requirePermit_def checkPermit_def
      returns_def throws_def throw_error_def)

section \<open>Values that are no permit\<close>

text \<open>
  C6 as stated fails for \<^verbatim>\<open>null\<close>, which it names: \<^verbatim>\<open>typeof null\<close> is \<^verbatim>\<open>'object'\<close>, so
  \<^verbatim>\<open>evaluatePermit\<close> takes \<^verbatim>\<open>null\<close> for a role and returns it in a one-element sequence.
\<close>

theorem evaluatePermit_null_counterexample:
  "evaluatePermit First example_funs (Suc 0) (Prim JNull) (Prim JUndefined) =
     (Returns [Prim JNull], [])
   \<and> fst (evaluatePermit First example_funs (Suc 0) (Prim JNull) (Prim JUndefined)) \<noteq>
       Throws (Error ''Invalid Permit Type'')
   \<and> \<not> instanceof_Promise (Prim JNull) \<and> \<not> isArray (Prim JNull)
   \<and> typeof (Prim JNull) \<noteq> ''string'' \<and> typeof (Prim JNull) \<noteq> ''function''"
  by (simp add: returns_def)

text \<open>
  C6, amended. For every permit value that is not a pending computation, not an array,
  and whose \<^verbatim>\<open>typeof\<close> is none of \<^verbatim>\<open>'string'\<close>, \<^verbatim>\<open>'object'\<close> and \<^verbatim>\<open>'function'\<close> (a number,
  a boolean, a bigint, a symbol or \<^verbatim>\<open>undefined\<close>), \<^verbatim>\<open>evaluatePermit\<close> throws the error
  \<^verbatim>\<open>Invalid Permit Type\<close> and produces neither roles nor a denial.
\<close>

theorem evaluatePermit_invalid:
  "\<not> instanceof_Promise permit \<Longrightarrow> \<not> isArray permit \<Longrightarrow>
   typeof permit \<notin> {''string'', ''object'', ''function''} \<Longrightarrow>
   evaluatePermit v F (Suc n) permit target = (Throws (Error ''Invalid Permit Type''), [])"
  by (simp add: throws_def)

theorem evaluatePermit_invalid_witness:
  "\<not> instanceof_Promise (Prim (JNumber (Decimal False 5 1)))
   \<and> \<not> isArray (Prim (JNumber (Decimal False 5 1)))
   \<and> typeof (Prim (JNumber (Decimal False 5 1))) \<notin> {''string'', ''object'', ''function''}
   \<and> evaluatePermit First example_funs (Suc 0) (Prim (JNumber (Decimal False 5 1)))
       (Prim JUndefined) =
       (Throws (JObject ''Error'' [(''message'', Prim (JString ''Invalid Permit Type''))]), [])"
  using evaluatePermit_invalid [of "Prim (JNumber (Decimal False 5 1))" First example_funs 0
      "Prim JUndefined"]
  by (simp add: Error_def)

section \<open>The two Denial constructors\<close>

text \<open>
  C10 says that both versions of the constructor give a denial the same message. They
  never do: the first version tests \<^verbatim>\<open>value === undefined\<close> where the second tests
  \<^verbatim>\<open>value !== undefined\<close>, so the first appends the value exactly when there is none.
  For \<^verbatim>\<open>new Denial('Permit', 'admin')\<close> the first gives \<^verbatim>\<open>Denial: Permit\<close> and the second
  \<^verbatim>\<open>Denial: Permit: admin\<close>; for \<^verbatim>\<open>new Denial('Approval')\<close> the first gives
  \<^verbatim>\<open>Denial: Approval: undefined\<close> and the second \<^verbatim>\<open>Denial: Approval\<close>.
\<close>

theorem Denial_message_versions:
  "Denial_message First cause val \<noteq> Denial_message Second cause val
   \<and> Denial_message First ''Permit'' (JString ''admin'') = ''Denial: Permit''
   \<and> Denial_message Second ''Permit'' (JString ''admin'') = ''Denial: Permit: admin''
   \<and> Denial_message First ''Approval'' JUndefined = ''Denial: Approval: undefined''
   \<and> Denial_message Second ''Approval'' JUndefined = ''Denial: Approval''"
  by simp

end
